theory Spec2Isabelle
  imports Main
begin

section \<open>JavaScript values and built-ins used by the balancer\<close>

text \<open>
  A JavaScript string is modelled as the list of its code units, each a HOL \<^typ>\<open>char\<close>
  (code units below 256). The counter \<open>unclosed\<close> is a JavaScript number that is only
  ever incremented and decremented by one from 0; it is modelled as an unbounded
  \<^typ>\<open>int\<close> (it may become negative, it never leaves the exactly representable range
  in any run of realistic length).
\<close>

text \<open>\<open>Array.prototype.join(sep)\<close>: the elements, with \<open>sep\<close> between neighbours.\<close>

fun join :: "string \<Rightarrow> string list \<Rightarrow> string" where
  "join sep [] = []"
| "join sep [x] = x"
| "join sep (x # y # ys) = x @ sep @ join sep (y # ys)"

text \<open>
  \<open>String.prototype.replaceAll(pattern, replacement)\<close> for a pattern of one code unit and
  a replacement without \<open>$\<close>: every occurrence of the code unit is replaced.
\<close>

fun replaceAll :: "char \<Rightarrow> string \<Rightarrow> string \<Rightarrow> string" where
  "replaceAll p r [] = []"
| "replaceAll p r (c # cs) = (if c = p then r @ replaceAll p r cs else c # replaceAll p r cs)"

text \<open>
  \<open>JSON.stringify\<close> on a string (ECMAScript \<open>QuoteJSONString\<close>): the product starts
  with a double quote, every code unit is appended either through the escape table,
  as a \<open>\uXXXX\<close> escape when it is below 0x20, or as itself, and a double quote ends it.
\<close>

definition hexDigit :: "nat \<Rightarrow> char" where
  "hexDigit n = ''0123456789abcdef'' ! (n mod 16)"

definition UnicodeEscape :: "char \<Rightarrow> string" where
  "UnicodeEscape c =
     (let n = (of_char c :: nat)
      in [CHR 0x5C, CHR ''u'', hexDigit (n div 4096), hexDigit (n div 256),
          hexDigit (n div 16), hexDigit n])"

definition QuoteJSONChar :: "char \<Rightarrow> string" where
  "QuoteJSONChar c =
     (if c = CHR 0x08 then [CHR 0x5C, CHR ''b'']
      else if c = CHR 0x09 then [CHR 0x5C, CHR ''t'']
      else if c = CHR 0x0A then [CHR 0x5C, CHR ''n'']
      else if c = CHR 0x0C then [CHR 0x5C, CHR ''f'']
      else if c = CHR 0x0D then [CHR 0x5C, CHR ''r'']
      else if c = CHR 0x22 then [CHR 0x5C, CHR 0x22]
      else if c = CHR 0x5C then [CHR 0x5C, CHR 0x5C]
      else if (of_char c :: nat) < 0x20 then UnicodeEscape c
      else [c])"

definition JSON_stringify :: "string \<Rightarrow> string" where
  "JSON_stringify v = foldl (\<lambda>product c. product @ QuoteJSONChar c) [CHR 0x22] v @ [CHR 0x22]"

text \<open>
  An attribute record \<open>Record<string, string>\<close> is an ordinary object: its properties are
  kept here as an association list in the order in which they were created (the order
  in which the tokenizer met the attributes). \<open>Object.entries\<close> enumerates an ordinary
  object by \<open>OrdinaryOwnPropertyKeys\<close>: first the keys that are array indices (canonical
  decimal numerals below \<open>2^32 - 1\<close>) in ascending numeric order, then all other string
  keys in creation order.
\<close>

type_synonym attrs = "(string \<times> string) list"

definition isDigit :: "char \<Rightarrow> bool" where
  "isDigit c = (c \<in> set ''0123456789'')"

definition decimalValue :: "string \<Rightarrow> int" where
  "decimalValue k = foldl (\<lambda>a c. 10 * a + ((of_char c :: int) - 48)) 0 k"

definition isArrayIndex :: "string \<Rightarrow> bool" where
  "isArrayIndex k =
     (k \<noteq> [] \<and> list_all isDigit k \<and> (k = ''0'' \<or> hd k \<noteq> CHR ''0'')
      \<and> decimalValue k < 4294967295)"

definition Object_entries :: "attrs \<Rightarrow> attrs" where
  "Object_entries obj =
     sort_key (\<lambda>(k, v). decimalValue k) (filter (\<lambda>(k, v). isArrayIndex k) obj)
     @ filter (\<lambda>(k, v). \<not> isArrayIndex k) obj"

section \<open>The data model of \<open>src/index.ts\<close>\<close>

datatype HtmlNode =
    Open string attrs
  | Close string
  | Text string

record HtmlBalancerStreamOptions =
  shouldBuffer :: bool

subsection \<open>Tag classifier\<close>

definition selfClosingTags :: "string list" where
  "selfClosingTags =
     [''area'', ''base'', ''br'', ''col'', ''embed'', ''hr'', ''img'', ''input'',
      ''link'', ''meta'', ''param'', ''source'', ''track'', ''wbr'']"

definition isSelfClosingTag :: "string \<Rightarrow> bool" where
  "isSelfClosingTag tag = (tag \<in> set selfClosingTags)"

subsection \<open>Serializer\<close>

fun nodeToString :: "HtmlNode \<Rightarrow> string" where
  "nodeToString (Open name attributes) =
     (let attributeStrings =
            map (\<lambda>(key, value). key @ ''='' @ JSON_stringify value) (Object_entries attributes);
          closeTag = (if isSelfClosingTag name then ''/'' else [])
      in ''<'' @ join '' '' (name # attributeStrings) @ closeTag @ ''>'')"
| "nodeToString (Close name) = ''</'' @ name @ ''>''"
| "nodeToString (Text text) = text"

definition htmlNodesToString :: "HtmlNode list \<Rightarrow> string" where
  "htmlNodesToString nodes = join [] (map nodeToString nodes)"

subsection \<open>The parser callbacks of \<open>makeParser\<close>\<close>

text \<open>
  The closure state of \<open>makeParser\<close>: the counter \<open>unclosed\<close>, the pending \<open>buffer\<close>, and
  the trace of the calls of \<open>enqueue\<close>. Each call is \<open>enqueue(htmlNodesToString(nodes))\<close>;
  the trace \<open>enqueued\<close> records the list \<open>nodes\<close> of each call, and \<open>chunks\<close> gives the
  strings that were handed downstream.
\<close>

record parser_state =
  unclosed :: int
  buffer :: "HtmlNode list"
  enqueued :: "HtmlNode list list"

definition chunks :: "parser_state \<Rightarrow> string list" where
  "chunks s = map htmlNodesToString (enqueued s)"

definition makeParser :: parser_state where
  "makeParser = \<lparr>unclosed = 0, buffer = [], enqueued = []\<rparr>"

definition flush :: "parser_state \<Rightarrow> parser_state" where
  "flush s =
     (if length (buffer s) > 0
      then s\<lparr>buffer := [], enqueued := enqueued s @ [buffer s]\<rparr>
      else s)"

definition sanitize :: "string \<Rightarrow> string" where
  "sanitize text = replaceAll (CHR ''>'') ''&gt;'' (replaceAll (CHR ''<'') ''&lt;'' text)"

definition onopentag ::
  "HtmlBalancerStreamOptions \<Rightarrow> string \<Rightarrow> attrs \<Rightarrow> parser_state \<Rightarrow> parser_state" where
  "onopentag options name attributes s =
     (let s1 = s\<lparr>unclosed := unclosed s + 1\<rparr>;
          s2 = s1\<lparr>buffer := buffer s1 @ [Open name attributes]\<rparr>
      in if \<not> shouldBuffer options then flush s2 else s2)"

definition ontext ::
  "HtmlBalancerStreamOptions \<Rightarrow> string \<Rightarrow> parser_state \<Rightarrow> parser_state" where
  "ontext options text s =
     (let sanitizedText = sanitize text;
          s1 = s\<lparr>buffer := buffer s @ [Text sanitizedText]\<rparr>
      in if \<not> shouldBuffer options \<or> unclosed s1 = 0 then flush s1 else s1)"

definition onclosetag ::
  "HtmlBalancerStreamOptions \<Rightarrow> string \<Rightarrow> parser_state \<Rightarrow> parser_state" where
  "onclosetag options name s =
     (let s1 = s\<lparr>unclosed := unclosed s - 1\<rparr>;
          s2 = (if \<not> isSelfClosingTag name
                then s1\<lparr>buffer := buffer s1 @ [Close name]\<rparr>
                else s1)
      in if \<not> shouldBuffer options \<or> unclosed s2 = 0 then flush s2 else s2)"

subsection \<open>Events delivered by the tokenizer\<close>

text \<open>
  The three callbacks registered with the external tokenizer, as a tagged event, and
  the effect of a sequence of callbacks on the closure state. The \<open>transform\<close> of
  \<open>HtmlBalancerStream\<close> passes every chunk to \<open>parser.write\<close>; what reaches the code of
  the repository is the sequence of callbacks that the tokenizer makes, in document
  order, so \<open>parser_write\<close> takes that sequence.
\<close>

datatype event =
    OnOpenTag string attrs
  | OnText string
  | OnCloseTag string

fun callback :: "HtmlBalancerStreamOptions \<Rightarrow> parser_state \<Rightarrow> event \<Rightarrow> parser_state" where
  "callback options s (OnOpenTag name attributes) = onopentag options name attributes s"
| "callback options s (OnText text) = ontext options text s"
| "callback options s (OnCloseTag name) = onclosetag options name s"

definition parser_write ::
  "HtmlBalancerStreamOptions \<Rightarrow> event list \<Rightarrow> parser_state \<Rightarrow> parser_state" where
  "parser_write options es s = foldl (callback options) s es"

text \<open>The node that a callback appends to the buffer, if any.\<close>

fun pushed :: "event \<Rightarrow> HtmlNode list" where
  "pushed (OnOpenTag name attributes) = [Open name attributes]"
| "pushed (OnText text) = [Text (sanitize text)]"
| "pushed (OnCloseTag name) = (if isSelfClosingTag name then [] else [Close name])"

subsection \<open>Reference notions used to state the properties\<close>

text \<open>
  The escaping of text as the specification words it: every \<open><\<close> becomes \<open>&lt;\<close>, every
  \<open>>\<close> becomes \<open>&gt;\<close>, everything else is kept. It is compared with \<open>sanitize\<close>, the two
  successive \<open>replaceAll\<close> calls of the source.
\<close>

definition escapeText :: "string \<Rightarrow> string" where
  "escapeText raw =
     concat (map (\<lambda>c. if c = CHR ''<'' then ''&lt;''
                       else if c = CHR ''>'' then ''&gt;'' else [c]) raw)"

fun isVoidClose :: "HtmlNode \<Rightarrow> bool" where
  "isVoidClose (Close name) = isSelfClosingTag name"
| "isVoidClose (Open name attributes) = False"
| "isVoidClose (Text text) = False"




fun isOpenEvent :: "event \<Rightarrow> bool" where
  "isOpenEvent (OnOpenTag name attributes) = True"
| "isOpenEvent (OnText text) = False"
| "isOpenEvent (OnCloseTag name) = False"

subsection \<open>The external tokenizer at end of input\<close>




section \<open>Properties of the serializer and of the built-ins\<close>

lemma join_Nil_concat: "join [] xs = concat xs"
  by (induction xs rule: induct_list012) simp_all

lemma htmlNodesToString_concat: "htmlNodesToString nodes = concat (map nodeToString nodes)"
  by (simp add: htmlNodesToString_def join_Nil_concat)



lemma sanitize_escapeText: "sanitize raw = escapeText raw"
  unfolding sanitize_def escapeText_def
  by (induction raw) simp_all

lemma sanitize_no_brackets:
  "CHR ''<'' \<notin> set (sanitize raw) \<and> CHR ''>'' \<notin> set (sanitize raw)"
  unfolding sanitize_escapeText escapeText_def
  by (induction raw) auto











section \<open>Properties of the callbacks\<close>

lemma callback_conserves:
  "concat (enqueued (callback options s e)) @ buffer (callback options s e)
     = concat (enqueued s) @ buffer s @ pushed e"
  by (cases e) (simp_all add: onopentag_def ontext_def onclosetag_def flush_def Let_def)

lemma parser_write_snoc:
  "parser_write options (es @ [e]) s = callback options (parser_write options es s) e"
  by (simp add: parser_write_def)

lemma parser_write_conserves:
  "concat (enqueued (parser_write options es s)) @ buffer (parser_write options es s)
     = concat (enqueued s) @ buffer s @ concat (map pushed es)"
proof (induction es rule: rev_induct)
  case Nil
  show ?case by (simp add: parser_write_def)
next
  case (snoc e es)
  show ?case
    unfolding parser_write_snoc callback_conserves
    using snoc.IH by simp
qed

subsection \<open>The depth counter\<close>

text \<open>
  Claim C5, as amended. The counter \<open>unclosed\<close> does not look at the tag name: every
  open-tag callback adds one and every close-tag callback subtracts one, for void names
  as for all others, and text leaves it alone. An open-tag callback that is followed at
  once by the close-tag callback of the same name, which is how the tokenizer delivers a
  void tag, leaves the counter where it was.
\<close>

theorem depth_counts_every_tag:
  "unclosed (onopentag options name attributes s) = unclosed s + 1
   \<and> unclosed (onclosetag options name s) = unclosed s - 1
   \<and> unclosed (ontext options text s) = unclosed s
   \<and> unclosed (onclosetag options name (onopentag options name attributes s)) = unclosed s"
  by (simp add: onopentag_def ontext_def onclosetag_def flush_def Let_def)

theorem depth_counts_every_tag_witness:
  "unclosed (onopentag \<lparr>shouldBuffer = True\<rparr> ''br'' [] makeParser) = unclosed makeParser + 1
   \<and> unclosed (onclosetag \<lparr>shouldBuffer = True\<rparr> ''br'' makeParser) = unclosed makeParser - 1
   \<and> unclosed (ontext \<lparr>shouldBuffer = True\<rparr> ''a'' makeParser) = unclosed makeParser
   \<and> unclosed (onclosetag \<lparr>shouldBuffer = True\<rparr> ''br''
         (onopentag \<lparr>shouldBuffer = True\<rparr> ''br'' [] makeParser)) = unclosed makeParser"
  by (rule depth_counts_every_tag)

text \<open>
  Claim C5 as it is stated fails: the open-tag callback of the void tag \<open>br\<close> moves the
  counter from 0 to 1.
\<close>

theorem void_open_changes_depth:
  "isSelfClosingTag ''br''
   \<and> unclosed makeParser = 0
   \<and> unclosed (onopentag \<lparr>shouldBuffer = False\<rparr> ''br'' [] makeParser) = 1"
  by (simp add: isSelfClosingTag_def selfClosingTags_def makeParser_def onopentag_def
      flush_def Let_def)

subsection \<open>Text\<close>

text \<open>
  Claim C7. The text callback escapes the raw text exactly as the specification says
  (every \<open><\<close> replaced by \<open>&lt;\<close>, every \<open>>\<close> by \<open>&gt;\<close>, so that no angle bracket
  remains) and appends one \<open>Text\<close> node holding the escaped text behind everything that
  is pending; the serializer renders a \<open>Text\<close> node as its content, unchanged, wherever
  the node stands in the list.
\<close>

theorem text_escaped_then_verbatim:
  "sanitize raw = escapeText raw
   \<and> CHR ''<'' \<notin> set (sanitize raw) \<and> CHR ''>'' \<notin> set (sanitize raw)
   \<and> concat (enqueued (ontext options raw s)) @ buffer (ontext options raw s)
       = concat (enqueued s) @ buffer s @ [Text (escapeText raw)]
   \<and> htmlNodesToString (xs @ [Text t] @ ys)
       = htmlNodesToString xs @ t @ htmlNodesToString ys"
proof -
  have "concat (enqueued (callback options s (OnText raw)))
          @ buffer (callback options s (OnText raw))
        = concat (enqueued s) @ buffer s @ pushed (OnText raw)"
    by (rule callback_conserves)
  then have "concat (enqueued (ontext options raw s)) @ buffer (ontext options raw s)
        = concat (enqueued s) @ buffer s @ [Text (escapeText raw)]"
    by (simp add: sanitize_escapeText)
  moreover have "htmlNodesToString (xs @ [Text t] @ ys)
        = htmlNodesToString xs @ t @ htmlNodesToString ys"
    by (simp add: htmlNodesToString_concat)
  ultimately show ?thesis
    using sanitize_escapeText [of raw] sanitize_no_brackets [of raw] by simp
qed

theorem text_escaped_then_verbatim_witness:
  "sanitize ''a<b>c'' = ''a&lt;b&gt;c''
   \<and> chunks (ontext \<lparr>shouldBuffer = True\<rparr> ''a<b>c'' makeParser) = [''a&lt;b&gt;c'']"
proof -
  have e: "escapeText ''a<b>c'' = ''a&lt;b&gt;c''"
    by (simp add: escapeText_def)
  have c: "chunks (ontext \<lparr>shouldBuffer = True\<rparr> ''a<b>c'' makeParser)
        = [htmlNodesToString ([] @ [Text (sanitize ''a<b>c'')] @ [])]"
    by (simp add: chunks_def ontext_def makeParser_def flush_def Let_def)
  show ?thesis
    using text_escaped_then_verbatim
      [of "''a<b>c''" "\<lparr>shouldBuffer = True\<rparr>" makeParser "[]" "sanitize ''a<b>c''" "[]"]
    unfolding c e
    by (simp add: htmlNodesToString_def)
qed

subsection \<open>Flush timing without buffering\<close>

lemma pushed_empty_iff:
  "(pushed e = []) = (\<exists>name. e = OnCloseTag name \<and> isSelfClosingTag name)"
  by (cases e) simp_all

lemma unbuffered_callback:
  assumes "\<not> shouldBuffer options" and "buffer s = []"
  shows "buffer (callback options s e) = []
         \<and> enqueued (callback options s e)
             = enqueued s @ (if pushed e = [] then [] else [pushed e])"
  using assms
  by (cases e) (simp_all add: onopentag_def ontext_def onclosetag_def flush_def Let_def)

lemma unbuffered_buffer_empty:
  assumes "\<not> shouldBuffer options" and "buffer s = []"
  shows "buffer (parser_write options es s) = []"
proof (induction es rule: rev_induct)
  case Nil
  show ?case using assms by (simp add: parser_write_def)
next
  case (snoc e es)
  show ?case
    unfolding parser_write_snoc
    using unbuffered_callback [OF assms(1) snoc.IH] by simp
qed

text \<open>
  Claim C3, as amended. Without buffering, after any sequence of callbacks the buffer
  is empty, and the next callback hands downstream exactly one chunk holding exactly the
  node of that event, for every Open event, every Text event and every Close event of a
  non-void name. The Close event of a void name appends nothing and hands nothing
  downstream.
\<close>

theorem unbuffered_chunk_per_pushed_event:
  assumes "\<not> shouldBuffer options"
    and "s = parser_write options es makeParser"
    and "s' = callback options s e"
  shows "enqueued s' = enqueued s @ (if pushed e = [] then [] else [pushed e])
         \<and> buffer s' = []
         \<and> (pushed e = []) = (\<exists>name. e = OnCloseTag name \<and> isSelfClosingTag name)"
proof -
  have "buffer s = []"
    unfolding assms(2)
    by (rule unbuffered_buffer_empty [OF assms(1)]) (simp add: makeParser_def)
  from unbuffered_callback [OF assms(1) this, of e] pushed_empty_iff [of e]
  show ?thesis unfolding assms(3) by simp
qed

theorem unbuffered_chunk_per_pushed_event_witness:
  "\<not> shouldBuffer \<lparr>shouldBuffer = False\<rparr>
   \<and> enqueued (callback \<lparr>shouldBuffer = False\<rparr>
         (parser_write \<lparr>shouldBuffer = False\<rparr> [OnOpenTag ''div'' []] makeParser)
         (OnText ''a''))
       = enqueued (parser_write \<lparr>shouldBuffer = False\<rparr> [OnOpenTag ''div'' []] makeParser)
         @ [[Text ''a'']]
   \<and> enqueued (parser_write \<lparr>shouldBuffer = False\<rparr> [OnOpenTag ''div'' []] makeParser)
       = [[Open ''div'' []]]"
proof -
  have h: "\<not> shouldBuffer \<lparr>shouldBuffer = False\<rparr>" by simp
  have v: "enqueued (parser_write \<lparr>shouldBuffer = False\<rparr> [OnOpenTag ''div'' []] makeParser)
       = [[Open ''div'' []]]"
    by (simp add: parser_write_def onopentag_def flush_def makeParser_def Let_def)
  have p: "pushed (OnText ''a'') = [Text ''a'']"
    by (simp add: sanitize_def)
  show ?thesis
    using unbuffered_chunk_per_pushed_event [OF h refl refl, of "[OnOpenTag ''div'' []]" "OnText ''a''"]
      h v p
    by simp
qed

text \<open>
  Claim C3 as it is stated fails: the two events that the tokenizer delivers for \<open><br>\<close>
  give one chunk, not two; the Close event of \<open>br\<close> produces no chunk.
\<close>

theorem unbuffered_void_close_no_chunk:
  "chunks (parser_write \<lparr>shouldBuffer = False\<rparr>
             [OnOpenTag ''br'' [], OnCloseTag ''br''] makeParser) = [''<br/>'']
   \<and> enqueued (callback \<lparr>shouldBuffer = False\<rparr>
         (parser_write \<lparr>shouldBuffer = False\<rparr> [OnOpenTag ''br'' []] makeParser)
         (OnCloseTag ''br''))
       = enqueued (parser_write \<lparr>shouldBuffer = False\<rparr> [OnOpenTag ''br'' []] makeParser)"
  by code_simp

subsection \<open>Flush timing with buffering\<close>

lemma buffered_pending_callback:
  assumes "shouldBuffer options" and "0 < unclosed s \<longrightarrow> buffer s \<noteq> []"
  shows "0 < unclosed (callback options s e) \<longrightarrow> buffer (callback options s e) \<noteq> []"
  using assms
  by (cases e) (auto simp add: onopentag_def ontext_def onclosetag_def flush_def Let_def)

lemma buffered_pending:
  assumes "shouldBuffer options"
  shows "0 < unclosed (parser_write options es makeParser)
         \<longrightarrow> buffer (parser_write options es makeParser) \<noteq> []"
proof (induction es rule: rev_induct)
  case Nil
  show ?case by (simp add: parser_write_def makeParser_def)
next
  case (snoc e es)
  show ?case
    unfolding parser_write_snoc
    by (rule buffered_pending_callback [OF assms snoc.IH])
qed

lemma buffered_no_flush:
  assumes "shouldBuffer options"
    and "unclosed (callback options s e) \<noteq> 0 \<or> isOpenEvent e"
  shows "enqueued (callback options s e) = enqueued s
         \<and> buffer (callback options s e) = buffer s @ pushed e"
  using assms
  by (cases e)
    (auto simp add: onopentag_def ontext_def onclosetag_def flush_def Let_def split: if_splits)

lemma buffered_flush:
  assumes "shouldBuffer options"
    and "unclosed (callback options s e) = 0" and "\<not> isOpenEvent e"
    and "0 < unclosed s \<longrightarrow> buffer s \<noteq> []"
  shows "enqueued (callback options s e) = enqueued s @ [buffer s @ pushed e]
         \<and> buffer s @ pushed e \<noteq> []
         \<and> buffer (callback options s e) = []"
proof (cases e)
  case (OnOpenTag name atts)
  with assms(3) show ?thesis by simp
next
  case (OnText raw)
  with assms(1,2) show ?thesis
    by (auto simp add: ontext_def flush_def Let_def split: if_splits)
next
  case (OnCloseTag name)
  from assms(2) have u: "unclosed s = 1"
    unfolding OnCloseTag by (simp add: onclosetag_def flush_def Let_def split: if_splits)
  with assms(4) have "buffer s \<noteq> []" by simp
  with assms(1) u show ?thesis
    unfolding OnCloseTag by (auto simp add: onclosetag_def flush_def Let_def split: if_splits)
qed

text \<open>
  Claim C2. With buffering, let \<open>s\<close> be the state after any sequence of callbacks and \<open>s'\<close>
  the state after one more event. While the depth after the event is greater than 0
  (indeed whenever it is not 0, and after every Open event) nothing is handed
  downstream and the event's node stays in the buffer. When a Close or Text event leaves
  the depth at 0 (a Text event received at depth 0, or the Close event that ends a run
  of events by bringing the depth back to 0), exactly one chunk is handed downstream: it
  holds everything that was pending and the node of the event, it is not empty, and the
  buffer is empty afterwards. The nodes handed downstream and the pending ones are, in
  order, the nodes of all events so far.
\<close>

theorem buffered_flush_timing:
  assumes "shouldBuffer options"
    and "s = parser_write options es makeParser"
    and "s' = callback options s e"
  shows "(0 < unclosed s' \<longrightarrow> enqueued s' = enqueued s)
       \<and> (unclosed s' \<noteq> 0 \<or> isOpenEvent e
            \<longrightarrow> enqueued s' = enqueued s \<and> buffer s' = buffer s @ pushed e)
       \<and> (unclosed s' = 0 \<and> \<not> isOpenEvent e
            \<longrightarrow> enqueued s' = enqueued s @ [buffer s @ pushed e]
                \<and> buffer s @ pushed e \<noteq> [] \<and> buffer s' = [])
       \<and> concat (enqueued s) @ buffer s = concat (map pushed es)"
proof -
  have pend: "0 < unclosed s \<longrightarrow> buffer s \<noteq> []"
    unfolding assms(2) by (rule buffered_pending [OF assms(1)])
  have cons: "concat (enqueued s) @ buffer s = concat (map pushed es)"
    unfolding assms(2)
    using parser_write_conserves [of options es makeParser] by (simp add: makeParser_def)
  have a: "unclosed s' \<noteq> 0 \<or> isOpenEvent e
            \<longrightarrow> enqueued s' = enqueued s \<and> buffer s' = buffer s @ pushed e"
    unfolding assms(3) using buffered_no_flush [OF assms(1), of s e] by blast
  have b: "unclosed s' = 0 \<and> \<not> isOpenEvent e
            \<longrightarrow> enqueued s' = enqueued s @ [buffer s @ pushed e]
                \<and> buffer s @ pushed e \<noteq> [] \<and> buffer s' = []"
    unfolding assms(3) using buffered_flush [OF assms(1) _ _ pend, of e] by blast
  have c: "0 < unclosed s' \<longrightarrow> enqueued s' = enqueued s"
    using a by simp
  from a b c cons show ?thesis by blast
qed

theorem buffered_flush_timing_witness:
  "shouldBuffer \<lparr>shouldBuffer = True\<rparr>
   \<and> unclosed (callback \<lparr>shouldBuffer = True\<rparr>
         (parser_write \<lparr>shouldBuffer = True\<rparr> [OnOpenTag ''div'' [], OnText ''a''] makeParser)
         (OnCloseTag ''div'')) = 0
   \<and> \<not> isOpenEvent (OnCloseTag ''div'')
   \<and> enqueued (callback \<lparr>shouldBuffer = True\<rparr>
         (parser_write \<lparr>shouldBuffer = True\<rparr> [OnOpenTag ''div'' [], OnText ''a''] makeParser)
         (OnCloseTag ''div''))
       = enqueued (parser_write \<lparr>shouldBuffer = True\<rparr> [OnOpenTag ''div'' [], OnText ''a''] makeParser)
         @ [[Open ''div'' [], Text ''a'', Close ''div'']]
   \<and> 0 < unclosed (callback \<lparr>shouldBuffer = True\<rparr>
         (parser_write \<lparr>shouldBuffer = True\<rparr> [OnOpenTag ''div'' []] makeParser)
         (OnText ''a''))
   \<and> enqueued (callback \<lparr>shouldBuffer = True\<rparr>
         (parser_write \<lparr>shouldBuffer = True\<rparr> [OnOpenTag ''div'' []] makeParser)
         (OnText ''a''))
       = enqueued (parser_write \<lparr>shouldBuffer = True\<rparr> [OnOpenTag ''div'' []] makeParser)"
proof -
  have h: "shouldBuffer \<lparr>shouldBuffer = True\<rparr>" by simp
  have u: "unclosed (callback \<lparr>shouldBuffer = True\<rparr>
         (parser_write \<lparr>shouldBuffer = True\<rparr> [OnOpenTag ''div'' [], OnText ''a''] makeParser)
         (OnCloseTag ''div'')) = 0"
    by code_simp
  have b: "buffer (parser_write \<lparr>shouldBuffer = True\<rparr> [OnOpenTag ''div'' [], OnText ''a''] makeParser)
            @ pushed (OnCloseTag ''div'') = [Open ''div'' [], Text ''a'', Close ''div'']"
    by code_simp
  have u2: "0 < unclosed (callback \<lparr>shouldBuffer = True\<rparr>
         (parser_write \<lparr>shouldBuffer = True\<rparr> [OnOpenTag ''div'' []] makeParser)
         (OnText ''a''))"
    by code_simp
  show ?thesis
    using buffered_flush_timing [OF h refl refl, of "[OnOpenTag ''div'' [], OnText ''a'']" "OnCloseTag ''div''"]
      buffered_flush_timing [OF h refl refl, of "[OnOpenTag ''div'' []]" "OnText ''a''"]
      h u b u2
    by simp
qed

subsection \<open>Closing tags of void names\<close>

lemma pushed_no_void_close: "\<forall>n \<in> set (pushed e). \<not> isVoidClose n"
  by (cases e) simp_all

text \<open>
  Claim C6. After any sequence of callbacks, in either mode (the closes that the
  tokenizer synthesizes at end of input arrive through the same close-tag callback), no
  node of the pending buffer is a Close of a void name, no node that was handed to the
  serializer is one, and so every chunk that went downstream is the rendering of nodes
  among which there is no Close of a void name: the closing tag of a void name is never
  rendered.
\<close>

theorem no_void_close_buffered_or_emitted:
  assumes "s = parser_write options es makeParser"
  shows "(\<forall>n \<in> set (buffer s). \<not> isVoidClose n)
       \<and> (\<forall>nodes \<in> set (enqueued s). \<forall>n \<in> set nodes. \<not> isVoidClose n)
       \<and> (\<forall>c \<in> set (chunks s).
            \<exists>nodes. c = htmlNodesToString nodes \<and> (\<forall>n \<in> set nodes. \<not> isVoidClose n))"
proof -
  have "concat (enqueued s) @ buffer s = concat (map pushed es)"
    unfolding assms
    using parser_write_conserves [of options es makeParser] by (simp add: makeParser_def)
  then have "set (concat (enqueued s)) \<union> set (buffer s) = set (concat (map pushed es))"
    by (metis set_append)
  moreover have "\<forall>n \<in> set (concat (map pushed es)). \<not> isVoidClose n"
    using pushed_no_void_close by auto
  ultimately have all: "\<forall>n \<in> set (concat (enqueued s)) \<union> set (buffer s). \<not> isVoidClose n"
    by simp
  then have a: "\<forall>n \<in> set (buffer s). \<not> isVoidClose n"
    by blast
  from all have b: "\<forall>nodes \<in> set (enqueued s). \<forall>n \<in> set nodes. \<not> isVoidClose n"
    by auto
  have c: "\<forall>c \<in> set (chunks s).
            \<exists>nodes. c = htmlNodesToString nodes \<and> (\<forall>n \<in> set nodes. \<not> isVoidClose n)"
    using b unfolding chunks_def by auto
  from a b c show ?thesis by blast
qed

theorem no_void_close_buffered_or_emitted_witness:
  "buffer (parser_write \<lparr>shouldBuffer = True\<rparr>
      [OnOpenTag ''br'' [], OnCloseTag ''br'', OnOpenTag ''div'' [],
       OnOpenTag ''br'' [], OnCloseTag ''br''] makeParser)
     = [Open ''div'' [], Open ''br'' []]
   \<and> enqueued (parser_write \<lparr>shouldBuffer = True\<rparr>
      [OnOpenTag ''br'' [], OnCloseTag ''br'', OnOpenTag ''div'' [],
       OnOpenTag ''br'' [], OnCloseTag ''br''] makeParser)
     = [[Open ''br'' []]]
   \<and> \<not> isVoidClose (Open ''div'' [])
   \<and> \<not> isVoidClose (Open ''br'' [])"
proof -
  have b: "buffer (parser_write \<lparr>shouldBuffer = True\<rparr>
      [OnOpenTag ''br'' [], OnCloseTag ''br'', OnOpenTag ''div'' [],
       OnOpenTag ''br'' [], OnCloseTag ''br''] makeParser)
     = [Open ''div'' [], Open ''br'' []]"
    by code_simp
  have e: "enqueued (parser_write \<lparr>shouldBuffer = True\<rparr>
      [OnOpenTag ''br'' [], OnCloseTag ''br'', OnOpenTag ''div'' [],
       OnOpenTag ''br'' [], OnCloseTag ''br''] makeParser)
     = [[Open ''br'' []]]"
    by code_simp
  from no_void_close_buffered_or_emitted [OF refl, of "\<lparr>shouldBuffer = True\<rparr>"
      "[OnOpenTag ''br'' [], OnCloseTag ''br'', OnOpenTag ''div'' [],
        OnOpenTag ''br'' [], OnCloseTag ''br'']"]
  have "\<forall>n \<in> set [Open ''div'' [], Open ''br'' []]. \<not> isVoidClose n"
    unfolding b by blast
  then have "\<not> isVoidClose (Open ''div'' []) \<and> \<not> isVoidClose (Open ''br'' [])"
    by simp
  with b e show ?thesis by blast
qed

subsection \<open>Serialization of Open nodes\<close>






section \<open>End of input\<close>






















end
